theory Spec2Isabelle
  imports Main
begin

section \<open>The cron job scheduler of cron-jobs/index.ts\<close>

text \<open>
  The module has two functions: \<open>executeJob\<close>, which runs one attempt of a job and, when the
  attempt fails, either hands a re-invocation of itself to \<open>setTimeout\<close> or gives up; and
  \<open>registerAllCronJobs\<close>, which hands every descriptor of the list in cron-jobs/jobs.ts to
  \<open>cron.schedule\<close>.

  Numbers: \<open>attempt\<close> and \<open>retries\<close> are JavaScript numbers. The model reads them as
  unbounded integers (\<open>int\<close>), which is what they are for the integer values below \<open>2^53\<close>
  that the counters take; fractional values, NaN and the rounding of doubles are outside
  the model. The optional field \<open>retries?\<close> is an \<open>int option\<close>, \<open>None\<close> for undefined.

  Time is a clock in milliseconds. One invocation of \<open>executeJob\<close> is one step of the
  model: the time the awaited task takes is added to the clock inside the step. Where
  several retry chains are pending at once the model runs their invocations one after the
  other; the theorems about one chain are stated for a world in which no other timer is
  pending.
\<close>

subsection \<open>Tasks\<close>

text \<open>
  \<open>task: () => Promise<void>\<close>. Calling a task and awaiting its promise has one of three
  ends: the promise is fulfilled, it is rejected with an error value (a synchronous throw
  of the body is caught by the same \<open>try\<close>), or it never settles. A task acts on the host
  state \<open>'s\<close> (everything outside the scheduler), may print lines on the console, and takes
  \<open>elapsed\<close> milliseconds to settle.
\<close>

datatype 'e settlement = Fulfilled | Rejected 'e | Pending

record 'e task_run =
  printed :: "string list"
  elapsed :: nat
  settlement :: "'e settlement"

type_synonym ('s, 'e) task = "'s \<Rightarrow> 'e task_run \<times> 's"

subsection \<open>Job descriptors\<close>

text \<open>
  \<open>JobExecutionParams = {name, task, retries?}\<close> and
  \<open>JobParams = {name, slug, schedule, task, retries?}\<close> (the same shape as \<open>CronJob\<close> in
  jobs.ts). The second record extends the first by \<open>slug\<close> and \<open>schedule\<close>.
\<close>

record ('s, 'e) job_execution_params =
  name :: string
  task :: "('s, 'e) task"
  retries :: "int option"

record ('s, 'e) job_params = "('s, 'e) job_execution_params" +
  slug :: string
  schedule :: string

subsection \<open>What the scheduler does to the outside\<close>

text \<open>
  Every console line of index.ts is one constructor, with the values its template
  interpolates:
  \<^item> \<open>Executing name attempt\<close>: console.log "[Cron] Executing job: name, Attempt: attempt"
  \<^item> \<open>ExecutedSuccessfully name\<close>: console.log "[Cron] Job name executed successfully."
  \<^item> \<open>FailedOnAttempt name attempt error\<close>: console.error "[Cron] Job name failed on attempt attempt:", error
  \<^item> \<open>Retrying name\<close>: console.log "[Cron] Retrying job name in 10 seconds..."
  \<^item> \<open>Skipping name attempt\<close>: console.error "[Cron] Job name failed after attempt attempts. Skipping."
  \<^item> \<open>ScheduledJob name schedule\<close>: console.log "[Cron] Scheduled job: name (schedule)"
  \<^item> \<open>TaskOutput line\<close>: a line printed by a task body.

  The two calls into the runtime are events as well:
  \<^item> \<open>SetTimeout params attempt ms\<close>: \<open>setTimeout(() => executeJob(params, attempt), ms)\<close>
  \<^item> \<open>CronSchedule expression params\<close>:
    \<open>cron.schedule(expression, async () => { await executeJob(params) })\<close>
  The callbacks are closures over the values they pass on; the model keeps those values.
\<close>

datatype ('s, 'e) event =
    Executing string int
  | ExecutedSuccessfully string
  | FailedOnAttempt string int 'e
  | Retrying string
  | Skipping string int
  | ScheduledJob string string
  | TaskOutput string
  | SetTimeout "('s, 'e) job_execution_params" int nat
  | CronSchedule string "('s, 'e) job_execution_params"

text \<open>A pending timer of the runtime: when it is due and what its callback will call.\<close>

record ('s, 'e) timeout =
  due :: nat
  callback_params :: "('s, 'e) job_execution_params"
  callback_attempt :: int

text \<open>
  The world: the clock, the host state the tasks act on, the trace of events (each with
  the clock at the moment it happened), the pending timers, and the callbacks registered
  with the cron library, each under its expression.
\<close>

record ('s, 'e) world =
  now :: nat
  host :: 's
  trace :: "(nat \<times> ('s, 'e) event) list"
  timeouts :: "('s, 'e) timeout list"
  cron_tasks :: "(string \<times> ('s, 'e) job_execution_params) list"

definition emit :: "('s, 'e) event \<Rightarrow> ('s, 'e) world \<Rightarrow> ('s, 'e) world" where
  "emit e w = w\<lparr>trace := trace w @ [(now w, e)]\<rparr>"

text \<open>
  The runtime's \<open>setTimeout(callback, ms)\<close>: the call is recorded and the callback becomes
  pending, due \<open>ms\<close> milliseconds from now. It returns at once.
\<close>

definition setTimeout ::
  "('s, 'e) job_execution_params \<Rightarrow> int \<Rightarrow> nat \<Rightarrow> ('s, 'e) world \<Rightarrow> ('s, 'e) world" where
  "setTimeout p attempt ms w =
     (emit (SetTimeout p attempt ms) w)
       \<lparr>timeouts := timeouts w @
          [\<lparr>due = now w + ms, callback_params = p, callback_attempt = attempt\<rparr>]\<rparr>"

subsection \<open>executeJob\<close>

text \<open>The guard \<open>retries && attempt < retries\<close>: undefined and 0 are falsy.\<close>

definition retry_guard :: "int option \<Rightarrow> int \<Rightarrow> bool" where
  "retry_guard rs attempt = (case rs of None \<Rightarrow> False | Some r \<Rightarrow> r \<noteq> 0 \<and> attempt < r)"

text \<open>
  \<open>executeJob({name, task, retries}, attempt)\<close>. The result is how the promise the async
  function returns settles, with the world after the call. The lines a task prints are
  entered at the time of its call; the clock then moves on by the time the task took.
\<close>

definition executeJob ::
  "('s, 'e) job_execution_params \<Rightarrow> int \<Rightarrow> ('s, 'e) world \<Rightarrow> 'e settlement \<times> ('s, 'e) world" where
  "executeJob p attempt w =
     (let w1 = emit (Executing (name p) attempt) w;
          (run, h) = task p (host w1);
          w2 = w1\<lparr>host := h, trace := trace w1 @ map (\<lambda>l. (now w1, TaskOutput l)) (printed run)\<rparr>
      in case settlement run of
           Pending \<Rightarrow> (Pending, w2)
         | Fulfilled \<Rightarrow>
             (Fulfilled, emit (ExecutedSuccessfully (name p)) (w2\<lparr>now := now w2 + elapsed run\<rparr>))
         | Rejected err \<Rightarrow>
             (let w3 = emit (FailedOnAttempt (name p) attempt err) (w2\<lparr>now := now w2 + elapsed run\<rparr>)
              in if retry_guard (retries p) attempt
                 then (Fulfilled,
                       setTimeout \<lparr>name = name p, task = task p, retries = retries p\<rparr> (attempt + 1) 10000
                         (emit (Retrying (name p)) w3))
                 else (Fulfilled, emit (Skipping (name p) attempt) w3)))"

subsection \<open>The runtime's timers\<close>

text \<open>
  The runtime runs the pending timer that is due first (the one set first, among equals),
  no earlier than its due time, and goes on until no timer is pending.
\<close>

fun pop_earliest :: "('s, 'e) timeout list \<Rightarrow> (('s, 'e) timeout \<times> ('s, 'e) timeout list) option" where
  "pop_earliest [] = None"
| "pop_earliest (t # ts) =
     (case pop_earliest ts of
        None \<Rightarrow> Some (t, [])
      | Some (m, rest) \<Rightarrow> if due m < due t then Some (m, t # rest) else Some (t, ts))"

definition run_next_timeout :: "('s, 'e) world \<Rightarrow> ('s, 'e) world" where
  "run_next_timeout w =
     (case pop_earliest (timeouts w) of
        None \<Rightarrow> w
      | Some (t, rest) \<Rightarrow>
          snd (executeJob (callback_params t) (callback_attempt t)
                 (w\<lparr>now := max (now w) (due t), timeouts := rest\<rparr>)))"

text \<open>What a pending timer can still cause: its own run and the retries left after it.\<close>

definition timeout_weight :: "('s, 'e) timeout \<Rightarrow> nat" where
  "timeout_weight t =
     Suc (case retries (callback_params t) of
            None \<Rightarrow> 0
          | Some r \<Rightarrow> nat (r - callback_attempt t))"

definition pending_weight :: "('s, 'e) world \<Rightarrow> nat" where
  "pending_weight w = sum_list (map timeout_weight (timeouts w))"

lemma executeJob_rejected:
  assumes "task p (host w) = (run, h)" and "settlement run = Rejected err"
  shows "executeJob p a w =
    (Fulfilled,
     if retry_guard (retries p) a
     then w\<lparr>now := now w + elapsed run, host := h,
            trace := trace w @ (now w, Executing (name p) a)
                     # map (\<lambda>l. (now w, TaskOutput l)) (printed run)
                     @ [(now w + elapsed run, FailedOnAttempt (name p) a err),
                        (now w + elapsed run, Retrying (name p)),
                        (now w + elapsed run, SetTimeout p (a + 1) 10000)],
            timeouts := timeouts w @
              [\<lparr>due = now w + elapsed run + 10000, callback_params = p, callback_attempt = a + 1\<rparr>]\<rparr>
     else w\<lparr>now := now w + elapsed run, host := h,
            trace := trace w @ (now w, Executing (name p) a)
                     # map (\<lambda>l. (now w, TaskOutput l)) (printed run)
                     @ [(now w + elapsed run, FailedOnAttempt (name p) a err),
                        (now w + elapsed run, Skipping (name p) a)]\<rparr>)"
  using assms by (simp add: executeJob_def emit_def setTimeout_def Let_def)

lemma executeJob_fulfilled:
  assumes "task p (host w) = (run, h)" and "settlement run = Fulfilled"
  shows "executeJob p a w =
    (Fulfilled,
     w\<lparr>now := now w + elapsed run, host := h,
       trace := trace w @ (now w, Executing (name p) a)
                # map (\<lambda>l. (now w, TaskOutput l)) (printed run)
                @ [(now w + elapsed run, ExecutedSuccessfully (name p))]\<rparr>)"
  using assms by (simp add: executeJob_def emit_def Let_def)

lemma executeJob_pending:
  assumes "task p (host w) = (run, h)" and "settlement run = Pending"
  shows "executeJob p a w =
    (Pending,
     w\<lparr>host := h,
       trace := trace w @ (now w, Executing (name p) a)
                # map (\<lambda>l. (now w, TaskOutput l)) (printed run)\<rparr>)"
  using assms by (simp add: executeJob_def emit_def Let_def)

lemma pop_earliest_None: "pop_earliest ts = None \<longleftrightarrow> ts = []"
  by (cases ts) (auto split: option.splits)

lemma pop_earliest_weight:
  "pop_earliest ts = Some (t, rest) \<Longrightarrow>
   sum_list (map timeout_weight ts) = timeout_weight t + sum_list (map timeout_weight rest)"
  by (induction ts arbitrary: t rest)
     (auto simp: pop_earliest_None split: option.splits if_splits)

lemma executeJob_weight:
  "sum_list (map timeout_weight (timeouts (snd (executeJob p a w))))
   < sum_list (map timeout_weight (timeouts w))
     + timeout_weight \<lparr>due = d, callback_params = p, callback_attempt = a\<rparr>"
proof -
  obtain run h where th: "task p (host w) = (run, h)" by (cases "task p (host w)")
  show ?thesis
  proof (cases "settlement run")
    case Fulfilled
    then show ?thesis using th by (simp add: executeJob_fulfilled timeout_weight_def)
  next
    case (Rejected err)
    then show ?thesis using th
      by (auto simp add: executeJob_rejected timeout_weight_def retry_guard_def
               split: option.splits)
  next
    case Pending
    then show ?thesis using th by (simp add: executeJob_pending timeout_weight_def)
  qed
qed

lemma run_next_timeout_weight:
  assumes "timeouts w \<noteq> []"
  shows "pending_weight (run_next_timeout w) < pending_weight w"
proof -
  obtain t rest where pe: "pop_earliest (timeouts w) = Some (t, rest)"
    using assms pop_earliest_None[of "timeouts w"] by (cases "pop_earliest (timeouts w)") auto
  have "pending_weight (run_next_timeout w)
        < sum_list (map timeout_weight rest)
          + timeout_weight \<lparr>due = due t, callback_params = callback_params t,
                            callback_attempt = callback_attempt t\<rparr>"
    using executeJob_weight[of "callback_params t" "callback_attempt t"
            "w\<lparr>now := max (now w) (due t), timeouts := rest\<rparr>" "due t"]
    by (simp add: run_next_timeout_def pe pending_weight_def)
  then show ?thesis
    using pop_earliest_weight[OF pe]
    by (simp add: pending_weight_def timeout_weight_def split: option.splits)
qed

text \<open>
  The timers run until none is pending. Every run of a timer lowers the pending weight,
  so this ends for every world.
\<close>

function run_timeouts :: "('s, 'e) world \<Rightarrow> ('s, 'e) world" where
  "run_timeouts w = (case timeouts w of [] \<Rightarrow> w | _ # _ \<Rightarrow> run_timeouts (run_next_timeout w))"
  by pat_completeness auto
termination
  by (relation "measure pending_weight") (auto intro: run_next_timeout_weight)

declare run_timeouts.simps [simp del]

subsection \<open>The cron library and registerAllCronJobs\<close>

text \<open>
  Modelled from the spec: \<open>cron.schedule\<close> is the node-cron library's, not this
  repository's. Section 6 of the spec gives its contract: it accepts a cron expression
  and a zero-argument callback and invokes the callback each time the wall clock matches
  the expression. The call is recorded and the callback is kept under its expression, after
  the ones registered before. What "matches" means is the library's; \<open>cron_tick\<close> takes it
  as the parameter \<open>matches\<close>. The library refuses an expression it cannot read; the
  expressions of the registry are all of the five-field form, and the model has no such
  refusal.
\<close>

definition cron_schedule ::
  "string \<Rightarrow> ('s, 'e) job_execution_params \<Rightarrow> ('s, 'e) world \<Rightarrow> ('s, 'e) world" where
  "cron_schedule expr p w =
     (emit (CronSchedule expr p) w)\<lparr>cron_tasks := cron_tasks w @ [(expr, p)]\<rparr>"

text \<open>
  The callback index.ts registers: \<open>async () => { await executeJob({name, task, retries}) }\<close>.
  \<open>attempt\<close> takes its default, 1.
\<close>

definition cron_callback ::
  "('s, 'e) job_execution_params \<Rightarrow> ('s, 'e) world \<Rightarrow> 'e settlement \<times> ('s, 'e) world" where
  "cron_callback p w = executeJob p 1 w"

text \<open>
  One moment \<open>m\<close> of the wall clock: every registered callback whose expression matches
  \<open>m\<close> is invoked, in the order of registration.
\<close>

definition cron_tick ::
  "(string \<Rightarrow> nat \<Rightarrow> bool) \<Rightarrow> nat \<Rightarrow> ('s, 'e) world \<Rightarrow> ('s, 'e) world" where
  "cron_tick matches m w =
     fold (\<lambda>(expr, p) v. snd (cron_callback p v))
          (filter (\<lambda>(expr, p). matches expr m) (cron_tasks w))
          (w\<lparr>now := max (now w) m\<rparr>)"

text \<open>
  The registry of cron-jobs/jobs.ts. Every task body there prints two lines and returns;
  its \<open>catch\<close> branch would print and rethrow, and nothing in the \<open>try\<close> block throws.
\<close>

definition job_body :: "string \<Rightarrow> string \<Rightarrow> ('s, 'e) task" where
  "job_body first second s = (\<lparr>printed = [first, second], elapsed = 0, settlement = Fulfilled\<rparr>, s)"

definition jobs :: "('s, 'e) job_params list" where
  "jobs =
    [\<lparr>name = ''Process Pending Payments'',
      task = job_body ''[Job] Processing pending payments...'' ''[Job] Payments processed successfully.'',
      retries = Some 3,
      slug = ''process-pending-payments'', schedule = ''0 1 * * *''\<rparr>,
     \<lparr>name = ''Expire Inactive Subscriptions'',
      task = job_body ''[Job] Expiring inactive subscriptions...'' ''[Job] Expired inactive subscriptions.'',
      retries = None,
      slug = ''expire-inactive-subscriptions'', schedule = ''0 2 * * *''\<rparr>,
     \<lparr>name = ''Assign Support Agents to New Cases'',
      task = job_body ''[Job] Assigning support agents...'' ''[Job] Support agents assigned.'',
      retries = Some 2,
      slug = ''assign-support-agents'', schedule = ''0 0,6,12,18 * * *''\<rparr>,
     \<lparr>name = ''Generate Daily Reports'',
      task = job_body ''[Job] Generating daily reports...'' ''[Job] Daily reports generated.'',
      retries = None,
      slug = ''generate-daily-reports'', schedule = ''30 3 * * *''\<rparr>,
     \<lparr>name = ''Update User Status'',
      task = job_body ''[Job] Updating user statuses...'' ''[Job] User statuses updated.'',
      retries = Some 3,
      slug = ''update-user-status'', schedule = ''30 0,12 * * *''\<rparr>,
     \<lparr>name = ''Sync External Data Sources'',
      task = job_body ''[Job] Syncing external data sources...'' ''[Job] External data sync complete.'',
      retries = None,
      slug = ''sync-external-data'', schedule = ''0 4 * * *''\<rparr>,
     \<lparr>name = ''Clear Old Logs and Cache'',
      task = job_body ''[Job] Clearing old logs and cache...'' ''[Job] Logs and cache cleared.'',
      retries = None,
      slug = ''clear-old-logs'', schedule = ''0 5 * * *''\<rparr>]"

text \<open>The body of the \<open>forEach\<close>: register the callback, then print the line.\<close>

definition register_job :: "('s, 'e) job_params \<Rightarrow> ('s, 'e) world \<Rightarrow> ('s, 'e) world" where
  "register_job j w =
     emit (ScheduledJob (name j) (schedule j))
       (cron_schedule (schedule j) \<lparr>name = name j, task = task j, retries = retries j\<rparr> w)"

definition registerAllCronJobs :: "('s, 'e) world \<Rightarrow> ('s, 'e) world" where
  "registerAllCronJobs w = fold register_job jobs w"

subsection \<open>Reading a trace\<close>

text \<open>The events that happened between an earlier world and a later one.\<close>

definition events_since ::
  "('s, 'e) world \<Rightarrow> ('s, 'e) world \<Rightarrow> (nat \<times> ('s, 'e) event) list" where
  "events_since w w' = drop (length (trace w)) (trace w')"

text \<open>
  The attempts started (time and attempt number of each "Executing" line), the attempts
  that failed, the times of the success lines, the give-ups (time and the attempt count of
  each "Skipping" line), and the calls of \<open>setTimeout\<close> (time, the parameters and attempt
  the callback passes on, and the delay).
\<close>

definition started :: "(nat \<times> ('s, 'e) event) list \<Rightarrow> (nat \<times> int) list" where
  "started tr = [(t, a). (t, Executing n a) \<leftarrow> tr]"

definition failed :: "(nat \<times> ('s, 'e) event) list \<Rightarrow> (nat \<times> int) list" where
  "failed tr = [(t, a). (t, FailedOnAttempt n a err) \<leftarrow> tr]"

definition succeeded :: "(nat \<times> ('s, 'e) event) list \<Rightarrow> nat list" where
  "succeeded tr = [t. (t, ExecutedSuccessfully n) \<leftarrow> tr]"

definition given_up :: "(nat \<times> ('s, 'e) event) list \<Rightarrow> (nat \<times> int) list" where
  "given_up tr = [(t, a). (t, Skipping n a) \<leftarrow> tr]"

definition timers_set ::
  "(nat \<times> ('s, 'e) event) list \<Rightarrow> (nat \<times> ('s, 'e) job_execution_params \<times> int \<times> nat) list" where
  "timers_set tr = [(t, p, a, ms). (t, SetTimeout p a ms) \<leftarrow> tr]"

text \<open>
  A task that is rejected on each of its first \<open>n\<close> calls from host state \<open>s\<close>, and one
  that is rejected on its first \<open>k\<close> calls and fulfilled on the next.
\<close>

fun fails_first :: "nat \<Rightarrow> ('s, 'e) task \<Rightarrow> 's \<Rightarrow> bool" where
  "fails_first 0 tk s = True"
| "fails_first (Suc n) tk s =
     (case settlement (fst (tk s)) of
        Rejected err \<Rightarrow> fails_first n tk (snd (tk s))
      | _ \<Rightarrow> False)"

fun succeeds_after :: "nat \<Rightarrow> ('s, 'e) task \<Rightarrow> 's \<Rightarrow> bool" where
  "succeeds_after 0 tk s = (case settlement (fst (tk s)) of Fulfilled \<Rightarrow> True | _ \<Rightarrow> False)"
| "succeeds_after (Suc k) tk s =
     (case settlement (fst (tk s)) of
        Rejected err \<Rightarrow> succeeds_after k tk (snd (tk s))
      | _ \<Rightarrow> False)"

subsection \<open>Worlds and jobs to run the model on\<close>

text \<open>
  The world at process start, and the first end-to-end scenario of the spec: a job named A
  whose task always fails (here after 7 ms, with the error "boom"), with \<open>retries: 3\<close>.
\<close>

definition initial_world :: "'s \<Rightarrow> ('s, 'e) world" where
  "initial_world s = \<lparr>now = 0, host = s, trace = [], timeouts = [], cron_tasks = []\<rparr>"

definition always_fails :: "(unit, string) task" where
  "always_fails s = (\<lparr>printed = [], elapsed = 7, settlement = Rejected ''boom''\<rparr>, s)"

definition scenario_A :: "(unit, string) job_execution_params" where
  "scenario_A = \<lparr>name = ''A'', task = always_fails, retries = Some 3\<rparr>"

text \<open>
  A task that fails whenever it is called, after printing a line, and one that succeeds.
\<close>

definition fails_once :: "(unit, string) task" where
  "fails_once s = (\<lparr>printed = [''working''], elapsed = 7, settlement = Rejected ''boom''\<rparr>, s)"

definition succeeds :: "(unit, string) task" where
  "succeeds s = (\<lparr>printed = [''working''], elapsed = 5, settlement = Fulfilled\<rparr>, s)"

text \<open>
  A task that counts its calls in the host state, fails on the first two and succeeds from
  the third on.
\<close>

definition fails_twice :: "(nat, string) task" where
  "fails_twice calls =
     (\<lparr>printed = [], elapsed = 7,
       settlement = (if calls < 2 then Rejected ''not yet'' else Fulfilled)\<rparr>, Suc calls)"

text \<open>
  A wall clock for the cron library on which only the expression \<open>0 1 * * *\<close> matches.
\<close>

definition one_am_only :: "string \<Rightarrow> nat \<Rightarrow> bool" where
  "one_am_only expr m = (expr = ''0 1 * * *'')"

section \<open>Lemmas\<close>

subsection \<open>Reading the events of an invocation\<close>

lemma events_sinceI: "trace w' = trace w @ tr \<Longrightarrow> events_since w w' = tr"
  by (simp add: events_since_def)

lemma started_append: "started (xs @ ys) = started xs @ started ys"
  by (simp add: started_def)

lemma failed_append: "failed (xs @ ys) = failed xs @ failed ys"
  by (simp add: failed_def)

lemma succeeded_append: "succeeded (xs @ ys) = succeeded xs @ succeeded ys"
  by (simp add: succeeded_def)

lemma given_up_append: "given_up (xs @ ys) = given_up xs @ given_up ys"
  by (simp add: given_up_def)

lemma timers_set_append: "timers_set (xs @ ys) = timers_set xs @ timers_set ys"
  by (simp add: timers_set_def)

lemma started_output: "started (map (\<lambda>l. (t, TaskOutput l)) ls) = []"
  by (induction ls) (simp_all add: started_def)

lemma failed_output: "failed (map (\<lambda>l. (t, TaskOutput l)) ls) = []"
  by (induction ls) (simp_all add: failed_def)

lemma succeeded_output: "succeeded (map (\<lambda>l. (t, TaskOutput l)) ls) = []"
  by (induction ls) (simp_all add: succeeded_def)

lemma given_up_output: "given_up (map (\<lambda>l. (t, TaskOutput l)) ls) = []"
  by (induction ls) (simp_all add: given_up_def)

lemma timers_set_output: "timers_set (map (\<lambda>l. (t, TaskOutput l)) ls) = []"
  by (induction ls) (simp_all add: timers_set_def)

lemma started_Cons: "started ((t, e) # tr) = (case e of Executing n a \<Rightarrow> [(t, a)] | _ \<Rightarrow> []) @ started tr"
  by (simp add: started_def)

lemma failed_Cons: "failed ((t, e) # tr) = (case e of FailedOnAttempt n a err \<Rightarrow> [(t, a)] | _ \<Rightarrow> []) @ failed tr"
  by (simp add: failed_def)

lemma succeeded_Cons: "succeeded ((t, e) # tr) = (case e of ExecutedSuccessfully n \<Rightarrow> [t] | _ \<Rightarrow> []) @ succeeded tr"
  by (simp add: succeeded_def)

lemma given_up_Cons: "given_up ((t, e) # tr) = (case e of Skipping n a \<Rightarrow> [(t, a)] | _ \<Rightarrow> []) @ given_up tr"
  by (simp add: given_up_def)

lemma timers_set_Cons: "timers_set ((t, e) # tr) = (case e of SetTimeout p a ms \<Rightarrow> [(t, p, a, ms)] | _ \<Rightarrow> []) @ timers_set tr"
  by (simp add: timers_set_def)

lemma projections_Nil: "started [] = []" "failed [] = []" "succeeded [] = []" "given_up [] = []" "timers_set [] = []"
  by (simp_all add: started_def failed_def succeeded_def given_up_def timers_set_def)

lemmas projection_simps = started_append failed_append succeeded_append given_up_append timers_set_append
  started_output failed_output succeeded_output given_up_output timers_set_output
  started_Cons failed_Cons succeeded_Cons given_up_Cons timers_set_Cons projections_Nil

subsection \<open>Retry chains\<close>

lemma run_timeouts_none: "timeouts w = [] \<Longrightarrow> run_timeouts w = w"
  by (simp add: run_timeouts.simps)

lemma run_timeouts_single:
  "timeouts w = [t] \<Longrightarrow>
   run_timeouts w =
   run_timeouts (snd (executeJob (callback_params t) (callback_attempt t)
                        (w\<lparr>now := max (now w) (due t), timeouts := []\<rparr>)))"
  by (subst run_timeouts.simps) (simp add: run_next_timeout_def)

text \<open>One failed attempt with retries left, and nothing else pending: the rest of the run is the
  run of the next attempt, ten seconds after the failure.\<close>

lemma retry_step:
  assumes "task p (host w) = (run, h)" and "settlement run = Rejected err"
    and "retry_guard (retries p) a" and "timeouts w = []"
  shows "run_timeouts (snd (executeJob p a w)) =
         run_timeouts (snd (executeJob p (a + 1)
           (w\<lparr>host := h,
              trace := trace w @ (now w, Executing (name p) a)
                       # map (\<lambda>l. (now w, TaskOutput l)) (printed run)
                       @ [(now w + elapsed run, FailedOnAttempt (name p) a err),
                          (now w + elapsed run, Retrying (name p)),
                          (now w + elapsed run, SetTimeout p (a + 1) 10000)],
              now := now w + elapsed run + 10000, timeouts := []\<rparr>)))"
  using assms
  by (simp add: executeJob_rejected[OF assms(1,2)] run_timeouts_single max_def)

lemma fails_first_SucD:
  assumes "fails_first (Suc n) tk s"
  obtains run h err where "tk s = (run, h)" "settlement run = Rejected err" "fails_first n tk h"
  using assms by (cases "tk s") (auto split: settlement.splits)

text \<open>A task that fails on every attempt, run from attempt \<open>a\<close> with budget \<open>r\<close>.\<close>

lemma failing_chain:
  assumes "retries p = Some r" and "r \<noteq> 0" and "a \<le> r" and "timeouts w = []"
    and "fails_first (Suc (nat (r - a))) (task p) (host w)"
  shows "\<exists>tr. trace (run_timeouts (snd (executeJob p a w))) = trace w @ tr
          \<and> map snd (failed tr) = [a..r]
          \<and> map snd (started tr) = [a..r]
          \<and> started tr = (now w, a) # map (\<lambda>(t, b). (t + 10000, b + 1)) (butlast (failed tr))
          \<and> timers_set tr = map (\<lambda>(t, b). (t, p, b + 1, 10000)) (butlast (failed tr))
          \<and> given_up tr = [(fst (last (failed tr)), r)]
          \<and> succeeded tr = []
          \<and> snd (last tr) = Skipping (name p) r
          \<and> timeouts (run_timeouts (snd (executeJob p a w))) = []
          \<and> cron_tasks (run_timeouts (snd (executeJob p a w))) = cron_tasks w"
  using assms
proof (induction "nat (r - a)" arbitrary: a w)
  case 0
  then have ar: "a = r" by simp
  from "0.prems"(5) "0.hyps" obtain run h err where
    th: "task p (host w) = (run, h)" "settlement run = Rejected err"
    by (metis fails_first_SucD)
  have ng: "\<not> retry_guard (retries p) a"
    using "0.prems"(1) ar by (simp add: retry_guard_def)
  show ?case
    using "0.prems"(4) ng ar
    by (simp add: executeJob_rejected[OF th] run_timeouts_none projection_simps)
next
  case (Suc n)
  then have lt: "a < r" and n: "n = nat (r - (a + 1))" by linarith+
  from Suc.prems(5) Suc.hyps(2) obtain run h err where
    th: "task p (host w) = (run, h)" "settlement run = Rejected err"
    and rest: "fails_first (Suc n) (task p) h"
    by (metis fails_first_SucD)
  have g: "retry_guard (retries p) a"
    using Suc.prems(1,2) lt by (simp add: retry_guard_def)
  define w1 where "w1 = w\<lparr>host := h,
              trace := trace w @ (now w, Executing (name p) a)
                       # map (\<lambda>l. (now w, TaskOutput l)) (printed run)
                       @ [(now w + elapsed run, FailedOnAttempt (name p) a err),
                          (now w + elapsed run, Retrying (name p)),
                          (now w + elapsed run, SetTimeout p (a + 1) 10000)],
              now := now w + elapsed run + 10000, timeouts := []\<rparr>"
  have step: "run_timeouts (snd (executeJob p a w)) = run_timeouts (snd (executeJob p (a + 1) w1))"
    unfolding w1_def by (rule retry_step[OF th g Suc.prems(4)])
  have "fails_first (Suc (nat (r - (a + 1)))) (task p) (host w1)"
    using rest n by (simp add: w1_def)
  from Suc.hyps(1)[OF n Suc.prems(1,2) _ _ this] lt
  obtain tr where
    tr_trace: "trace (run_timeouts (snd (executeJob p (a + 1) w1))) = trace w1 @ tr"
    and fl: "map snd (failed tr) = [a + 1..r]"
    and st: "map snd (started tr) = [a + 1..r]"
    and st_t: "started tr = (now w1, a + 1) # map (\<lambda>(t, b). (t + 10000, b + 1)) (butlast (failed tr))"
    and ts: "timers_set tr = map (\<lambda>(t, b). (t, p, b + 1, 10000)) (butlast (failed tr))"
    and gu: "given_up tr = [(fst (last (failed tr)), r)]"
    and su: "succeeded tr = []"
    and la: "snd (last tr) = Skipping (name p) r"
    and to: "timeouts (run_timeouts (snd (executeJob p (a + 1) w1))) = []"
    and cr: "cron_tasks (run_timeouts (snd (executeJob p (a + 1) w1))) = cron_tasks w1"
    by (auto simp: w1_def)
  have ne: "failed tr \<noteq> []" "tr \<noteq> []"
    using fl lt by (auto simp: projections_Nil)
  have up: "[a..r] = a # [a + 1..r]"
    using lt by (simp add: upto_rec1)
  let ?tr1 = "(now w, Executing (name p) a)
                       # map (\<lambda>l. (now w, TaskOutput l)) (printed run)
                       @ [(now w + elapsed run, FailedOnAttempt (name p) a err),
                          (now w + elapsed run, Retrying (name p)),
                          (now w + elapsed run, SetTimeout p (a + 1) 10000)]"
  have "trace (run_timeouts (snd (executeJob p a w))) = trace w @ (?tr1 @ tr)"
    using tr_trace by (simp add: step w1_def)
  moreover have "map snd (failed (?tr1 @ tr)) = [a..r]"
    using fl up by (simp add: projection_simps)
  moreover have "map snd (started (?tr1 @ tr)) = [a..r]"
    using st up by (simp add: projection_simps)
  moreover have "started (?tr1 @ tr) = (now w, a) # map (\<lambda>(t, b). (t + 10000, b + 1)) (butlast (failed (?tr1 @ tr)))"
    using st_t ne by (simp add: projection_simps w1_def)
  moreover have "timers_set (?tr1 @ tr) = map (\<lambda>(t, b). (t, p, b + 1, 10000)) (butlast (failed (?tr1 @ tr)))"
    using ts ne by (simp add: projection_simps)
  moreover have "given_up (?tr1 @ tr) = [(fst (last (failed (?tr1 @ tr))), r)]"
    using gu ne by (simp add: projection_simps)
  moreover have "succeeded (?tr1 @ tr) = []"
    using su by (simp add: projection_simps)
  moreover have "snd (last (?tr1 @ tr)) = Skipping (name p) r"
    using la ne by simp
  moreover have "timeouts (run_timeouts (snd (executeJob p a w))) = []"
    using to by (simp add: step)
  moreover have "cron_tasks (run_timeouts (snd (executeJob p a w))) = cron_tasks w"
    using cr by (simp add: step w1_def)
  ultimately show ?case by blast
qed

text \<open>Where the guard is false, the value of \<open>retries\<close> does not matter.\<close>

lemma executeJob_retries_irrelevant:
  assumes "\<not> retry_guard (retries p) a" and "\<not> retry_guard rs a"
  shows "executeJob (p\<lparr>retries := rs\<rparr>) a w = executeJob p a w"
  using assms by (simp add: executeJob_def Let_def split: prod.splits settlement.splits)

lemma succeeds_after_0D:
  assumes "succeeds_after 0 tk s"
  obtains run h where "tk s = (run, h)" "settlement run = Fulfilled"
  using assms by (cases "tk s") (auto split: settlement.splits)

lemma succeeds_after_SucD:
  assumes "succeeds_after (Suc k) tk s"
  obtains run h err where "tk s = (run, h)" "settlement run = Rejected err" "succeeds_after k tk h"
  using assms by (cases "tk s") (auto split: settlement.splits)

text \<open>A task that fails \<open>k\<close> times and then succeeds, run from attempt \<open>a\<close> with enough budget.\<close>

lemma succeeding_chain:
  assumes "retries p = Some r" and "r \<noteq> 0" and "a + int k \<le> r" and "timeouts w = []"
    and "succeeds_after k (task p) (host w)"
  shows "\<exists>tr. trace (run_timeouts (snd (executeJob p a w))) = trace w @ tr
          \<and> map snd (started tr) = [a..a + int k]
          \<and> map snd (failed tr) = [a..a + int k - 1]
          \<and> started tr = (now w, a) # map (\<lambda>(t, b). (t + 10000, b + 1)) (failed tr)
          \<and> timers_set tr = map (\<lambda>(t, b). (t, p, b + 1, 10000)) (failed tr)
          \<and> length (succeeded tr) = 1
          \<and> given_up tr = []
          \<and> snd (last tr) = ExecutedSuccessfully (name p)
          \<and> timeouts (run_timeouts (snd (executeJob p a w))) = []"
  using assms
proof (induction k arbitrary: a w)
  case 0
  from "0.prems"(5) obtain run h where
    th: "task p (host w) = (run, h)" "settlement run = Fulfilled"
    by (metis succeeds_after_0D)
  show ?case
    using "0.prems"(4)
    by (simp add: executeJob_fulfilled[OF th] run_timeouts_none projection_simps)
next
  case (Suc k)
  then have lt: "a < r" by linarith
  from Suc.prems(5) obtain run h err where
    th: "task p (host w) = (run, h)" "settlement run = Rejected err"
    and rest: "succeeds_after k (task p) h"
    by (metis succeeds_after_SucD)
  have g: "retry_guard (retries p) a"
    using Suc.prems(1,2) lt by (simp add: retry_guard_def)
  define w1 where "w1 = w\<lparr>host := h,
              trace := trace w @ (now w, Executing (name p) a)
                       # map (\<lambda>l. (now w, TaskOutput l)) (printed run)
                       @ [(now w + elapsed run, FailedOnAttempt (name p) a err),
                          (now w + elapsed run, Retrying (name p)),
                          (now w + elapsed run, SetTimeout p (a + 1) 10000)],
              now := now w + elapsed run + 10000, timeouts := []\<rparr>"
  have step: "run_timeouts (snd (executeJob p a w)) = run_timeouts (snd (executeJob p (a + 1) w1))"
    unfolding w1_def by (rule retry_step[OF th g Suc.prems(4)])
  have h1: "succeeds_after k (task p) (host w1)" "timeouts w1 = []" "a + 1 + int k \<le> r"
    using rest Suc.prems(3) by (simp_all add: w1_def)
  from Suc.IH[OF Suc.prems(1,2) h1(3) h1(2) h1(1)]
  obtain tr where
        tr_trace: "trace (run_timeouts (snd (executeJob p (a + 1) w1))) = trace w1 @ tr"
    and st: "map snd (started tr) = [a + 1..a + 1 + int k]"
    and fl: "map snd (failed tr) = [a + 1..a + 1 + int k - 1]"
    and st_t: "started tr = (now w1, a + 1) # map (\<lambda>(t, b). (t + 10000, b + 1)) (failed tr)"
    and ts: "timers_set tr = map (\<lambda>(t, b). (t, p, b + 1, 10000)) (failed tr)"
    and su: "length (succeeded tr) = 1"
    and gu: "given_up tr = []"
    and la: "snd (last tr) = ExecutedSuccessfully (name p)"
    and tm: "timeouts (run_timeouts (snd (executeJob p (a + 1) w1))) = []"
    by auto
  have ne: "tr \<noteq> []"
    using st_t by (auto simp: projections_Nil)
  have up: "[a..a + int (Suc k)] = a # [a + 1..a + 1 + int k]"
    "[a..a + int (Suc k) - 1] = a # [a + 1..a + 1 + int k - 1]"
    by (simp_all add: upto_rec1 add.commute add.left_commute)
  let ?tr1 = "(now w, Executing (name p) a)
                       # map (\<lambda>l. (now w, TaskOutput l)) (printed run)
                       @ [(now w + elapsed run, FailedOnAttempt (name p) a err),
                          (now w + elapsed run, Retrying (name p)),
                          (now w + elapsed run, SetTimeout p (a + 1) 10000)]"
  have "trace (run_timeouts (snd (executeJob p a w))) = trace w @ (?tr1 @ tr)"
    using tr_trace by (simp add: step w1_def)
  moreover have "map snd (started (?tr1 @ tr)) = [a..a + int (Suc k)]"
    using st up by (simp add: projection_simps)
  moreover have "map snd (failed (?tr1 @ tr)) = [a..a + int (Suc k) - 1]"
    using fl up by (simp add: projection_simps)
  moreover have "started (?tr1 @ tr) = (now w, a) # map (\<lambda>(t, b). (t + 10000, b + 1)) (failed (?tr1 @ tr))"
    using st_t by (simp add: projection_simps w1_def)
  moreover have "timers_set (?tr1 @ tr) = map (\<lambda>(t, b). (t, p, b + 1, 10000)) (failed (?tr1 @ tr))"
    using ts by (simp add: projection_simps)
  moreover have "length (succeeded (?tr1 @ tr)) = 1"
    using su by (simp add: projection_simps)
  moreover have "given_up (?tr1 @ tr) = []"
    using gu by (simp add: projection_simps)
  moreover have "snd (last (?tr1 @ tr)) = ExecutedSuccessfully (name p)"
    using la ne by simp
  moreover have "timeouts (run_timeouts (snd (executeJob p a w))) = []"
    using tm by (simp add: step)
  ultimately show ?case by blast
qed

text \<open>Any task: the re-invocations of a chain all pass on the parameters the chain was started
  with, and count the attempts up one by one.\<close>

lemma chain_calls:
  assumes "timeouts w = []"
  shows "\<exists>tr. trace (run_timeouts (snd (executeJob p a w))) = trace w @ tr
          \<and> map (\<lambda>(t, q, b, ms). (q, b, ms)) (timers_set tr)
              = map (\<lambda>b. (p, b, 10000)) [a + 1..a + int (length (timers_set tr))]
          \<and> map snd (started tr) = [a..a + int (length (timers_set tr))]"
  using assms
proof (induction "case retries p of None \<Rightarrow> 0 | Some r \<Rightarrow> nat (r - a)" arbitrary: a w rule: less_induct)
  case less
  obtain run h where th: "task p (host w) = (run, h)" by (cases "task p (host w)")
  show ?case
  proof (cases "settlement run")
    case Fulfilled
    show ?thesis
      using less.prems
      by (simp add: executeJob_fulfilled[OF th Fulfilled] run_timeouts_none projection_simps)
  next
    case Pending
    show ?thesis
      using less.prems
      by (simp add: executeJob_pending[OF th Pending] run_timeouts_none projection_simps)
  next
    case (Rejected err)
    show ?thesis
    proof (cases "retry_guard (retries p) a")
      case False
      then show ?thesis
        using less.prems
        by (simp add: executeJob_rejected[OF th Rejected] run_timeouts_none projection_simps)
    next
      case True
      then obtain r where r: "retries p = Some r" "a < r"
        by (cases "retries p") (auto simp: retry_guard_def)
      define w1 where "w1 = w\<lparr>host := h,
              trace := trace w @ (now w, Executing (name p) a)
                       # map (\<lambda>l. (now w, TaskOutput l)) (printed run)
                       @ [(now w + elapsed run, FailedOnAttempt (name p) a err),
                          (now w + elapsed run, Retrying (name p)),
                          (now w + elapsed run, SetTimeout p (a + 1) 10000)],
              now := now w + elapsed run + 10000, timeouts := []\<rparr>"
      have step: "run_timeouts (snd (executeJob p a w)) = run_timeouts (snd (executeJob p (a + 1) w1))"
        unfolding w1_def by (rule retry_step[OF th Rejected True less.prems])
      have smaller: "(case retries p of None \<Rightarrow> 0 | Some r \<Rightarrow> nat (r - (a + 1)))
                     < (case retries p of None \<Rightarrow> 0 | Some r \<Rightarrow> nat (r - a))"
        using r by simp
      have "timeouts w1 = []" by (simp add: w1_def)
      from less.hyps[OF smaller this]
      obtain tr where
            tr_trace: "trace (run_timeouts (snd (executeJob p (a + 1) w1))) = trace w1 @ tr"
        and ts: "map (\<lambda>(t, q, b, ms). (q, b, ms)) (timers_set tr)
                  = map (\<lambda>b. (p, b, 10000)) [a + 1 + 1..a + 1 + int (length (timers_set tr))]"
        and st: "map snd (started tr) = [a + 1..a + 1 + int (length (timers_set tr))]"
        by auto
      let ?n = "length (timers_set tr)"
      have e: "a + int (Suc ?n) = a + 1 + int ?n" by simp
      have up: "[a..a + int (Suc ?n)] = a # [a + 1..a + 1 + int ?n]"
        "[a + 1..a + int (Suc ?n)] = (a + 1) # [a + 1 + 1..a + 1 + int ?n]"
        unfolding e by (simp_all add: upto_rec1)
      let ?tr1 = "(now w, Executing (name p) a)
                       # map (\<lambda>l. (now w, TaskOutput l)) (printed run)
                       @ [(now w + elapsed run, FailedOnAttempt (name p) a err),
                          (now w + elapsed run, Retrying (name p)),
                          (now w + elapsed run, SetTimeout p (a + 1) 10000)]"
      have "trace (run_timeouts (snd (executeJob p a w))) = trace w @ (?tr1 @ tr)"
        using tr_trace by (simp add: step w1_def)
      moreover have "map (\<lambda>(t, q, b, ms). (q, b, ms)) (timers_set (?tr1 @ tr))
              = map (\<lambda>b. (p, b, 10000)) [a + 1..a + int (length (timers_set (?tr1 @ tr)))]"
        using ts up by (simp add: projection_simps)
      moreover have "map snd (started (?tr1 @ tr)) = [a..a + int (length (timers_set (?tr1 @ tr)))]"
        using st up by (simp add: projection_simps)
      ultimately show ?thesis by blast
    qed
  qed
qed

subsection \<open>Registration and ticks\<close>

lemma register_job_eq:
  "register_job j w =
     w\<lparr>trace := trace w @
          [(now w, CronSchedule (schedule j) \<lparr>name = name j, task = task j, retries = retries j\<rparr>),
           (now w, ScheduledJob (name j) (schedule j))],
       cron_tasks := cron_tasks w @
          [(schedule j, \<lparr>name = name j, task = task j, retries = retries j\<rparr>)]\<rparr>"
  by (simp add: register_job_def cron_schedule_def emit_def)

lemma fold_register_job:
  "fold register_job js w =
     w\<lparr>trace := trace w @
          concat (map (\<lambda>j. [(now w, CronSchedule (schedule j)
                                   \<lparr>name = name j, task = task j, retries = retries j\<rparr>),
                            (now w, ScheduledJob (name j) (schedule j))]) js),
       cron_tasks := cron_tasks w @
          map (\<lambda>j. (schedule j, \<lparr>name = name j, task = task j, retries = retries j\<rparr>)) js\<rparr>"
  by (induction js arbitrary: w) (simp_all add: register_job_eq)

lemma distinct_job_names: "distinct (map name (jobs :: ('s, 'e) job_params list))"
  by (simp add: jobs_def)

lemma count_no_output: "count_list (map (\<lambda>l. TaskOutput l) ls) (Executing n b) = 0"
  by (induction ls) simp_all

lemma executeJob_invocations:
  "\<exists>tr. trace (snd (executeJob p a w)) = trace w @ tr
        \<and> count_list (map snd tr) (Executing n a) = (if name p = n then 1 else 0)"
proof -
  obtain run h where th: "task p (host w) = (run, h)" by (cases "task p (host w)")
  show ?thesis
    by (cases "settlement run")
       (simp_all add: executeJob_fulfilled[OF th] executeJob_pending[OF th] executeJob_rejected[OF th]
          comp_def count_no_output)
qed

lemma fold_callbacks_invocations:
  "\<exists>tr. trace (fold (\<lambda>(expr, p) v. snd (cron_callback p v)) cs w) = trace w @ tr
        \<and> count_list (map snd tr) (Executing n 1) = length (filter (\<lambda>(expr, p). name p = n) cs)"
proof (induction cs arbitrary: w)
  case Nil
  show ?case by simp
next
  case (Cons c cs)
  obtain expr p where c: "c = (expr, p)" by (cases c)
  from executeJob_invocations[of p 1 w n]
  obtain tr1 where tr1: "trace (snd (executeJob p 1 w)) = trace w @ tr1"
    "count_list (map snd tr1) (Executing n 1) = (if name p = n then 1 else 0)"
    by auto
  from Cons.IH[of "snd (executeJob p 1 w)"]
  obtain tr2 where tr2:
    "trace (fold (\<lambda>(expr, p) v. snd (cron_callback p v)) cs (snd (executeJob p 1 w)))
       = trace (snd (executeJob p 1 w)) @ tr2"
    "count_list (map snd tr2) (Executing n 1) = length (filter (\<lambda>(expr, p). name p = n) cs)"
    by auto
  have "trace (fold (\<lambda>(expr, p) v. snd (cron_callback p v)) (c # cs) w) = trace w @ (tr1 @ tr2)"
    using tr1(1) tr2(1) by (simp add: c cron_callback_def)
  moreover have "count_list (map snd (tr1 @ tr2)) (Executing n 1)
                 = length (filter (\<lambda>(expr, p). name p = n) (c # cs))"
    using tr1(2) tr2(2) by (simp add: c)
  ultimately show ?case by blast
qed

lemma cron_tick_invocations:
  "count_list (map snd (events_since w (cron_tick matches m w))) (Executing n 1)
   = length (filter (\<lambda>(expr, p). matches expr m \<and> name p = n) (cron_tasks w))"
proof -
  from fold_callbacks_invocations[of "filter (\<lambda>(expr, p). matches expr m) (cron_tasks w)"
         "w\<lparr>now := max (now w) m\<rparr>" n]
  obtain tr where tr: "trace (cron_tick matches m w) = trace w @ tr"
    "count_list (map snd tr) (Executing n 1)
     = length (filter (\<lambda>(expr, p). name p = n) (filter (\<lambda>(expr, p). matches expr m) (cron_tasks w)))"
    by (auto simp: cron_tick_def)
  show ?thesis
    using tr(2) by (simp add: events_sinceI[OF tr(1)] case_prod_unfold)
qed

lemma one_job_of_that_name:
  "distinct (map name js) \<Longrightarrow> j \<in> set js \<Longrightarrow> P j \<Longrightarrow>
   length (filter (\<lambda>j'. P j' \<and> name j' = name j) js) = 1"
proof (induction js)
  case Nil
  then show ?case by simp
next
  case (Cons x xs)
  show ?case
  proof (cases "x = j")
    case True
    have "filter (\<lambda>j'. P j' \<and> name j' = name j) xs = []"
      using Cons.prems(1) True by (auto simp: filter_empty_conv image_iff)
    then show ?thesis using True Cons.prems(3) by simp
  next
    case False
    then have "j \<in> set xs" using Cons.prems(2) by simp
    moreover have "name x \<noteq> name j"
      using Cons.prems(1) \<open>j \<in> set xs\<close> by auto
    ultimately show ?thesis using Cons by simp
  qed
qed

lemma scheduled_lines:
  "[(n, s). (t, ScheduledJob n s) \<leftarrow>
      concat (map (\<lambda>j. [(c, CronSchedule (schedule j) (f j)), (c, ScheduledJob (name j) (schedule j))]) js)]
   = map (\<lambda>j. (name j, schedule j)) js"
  by (induction js) simp_all

lemma cron_tick_of_registered:
  assumes "cron_tasks w = map (\<lambda>j. (schedule j, f j)) js"
  shows "cron_tick matches m w =
         fold (\<lambda>j v. snd (executeJob (f j) 1 v)) (filter (\<lambda>j. matches (schedule j) m) js)
              (w\<lparr>now := max (now w) m\<rparr>)"
  by (simp add: cron_tick_def assms filter_map fold_map comp_def cron_callback_def)

subsection \<open>The spec's scenario A, event by event\<close>

lemma scenario_A_trace:
  "events_since (initial_world ()) (run_timeouts (snd (executeJob scenario_A 1 (initial_world ()))))
   = [(0, Executing ''A'' 1), (7, FailedOnAttempt ''A'' 1 ''boom''), (7, Retrying ''A''),
      (7, SetTimeout scenario_A 2 10000),
      (10007, Executing ''A'' 2), (10014, FailedOnAttempt ''A'' 2 ''boom''), (10014, Retrying ''A''),
      (10014, SetTimeout scenario_A 3 10000),
      (20014, Executing ''A'' 3), (20021, FailedOnAttempt ''A'' 3 ''boom''), (20021, Skipping ''A'' 3)]"
  by (simp add: run_timeouts.simps run_next_timeout_def executeJob_def emit_def setTimeout_def
        scenario_A_def always_fails_def initial_world_def retry_guard_def events_since_def Let_def)

section \<open>The claims\<close>

text \<open>
  C1. A task that fails on every attempt, run with \<open>retries = R\<close>, \<open>R \<ge> 2\<close>, from attempt 1
  with no other timer pending: the attempts are exactly those numbered 1 to \<open>R\<close>; \<open>setTimeout\<close>
  is called exactly \<open>R - 1\<close> times, once at each failure but the last, with a delay of
  10000 ms and a callback for the next attempt; every retry starts 10000 ms after the failure
  before it; the last event is the "Skipping" line for \<open>R\<close> attempts, the only give-up; and
  no timer is pending at the end.
\<close>

theorem always_failing_task_is_attempted_R_times:
  assumes "retries p = Some R" and "2 \<le> R" and "timeouts w = []"
    and "fails_first (nat R) (task p) (host w)"
  shows "let w' = run_timeouts (snd (executeJob p 1 w)); tr = events_since w w' in
           map snd (started tr) = [1..R]
         \<and> length (started tr) = nat R
         \<and> length (timers_set tr) = nat R - 1
         \<and> timers_set tr = map (\<lambda>(t, a). (t, p, a + 1, 10000)) (butlast (failed tr))
         \<and> tl (started tr) = map (\<lambda>(t, a). (t + 10000, a + 1)) (butlast (failed tr))
         \<and> map snd (failed tr) = [1..R]
         \<and> given_up tr = [(fst (last (failed tr)), R)]
         \<and> snd (last tr) = Skipping (name p) R
         \<and> succeeded tr = []
         \<and> timeouts w' = []"
proof -
  have "fails_first (Suc (nat (R - 1))) (task p) (host w)"
    using assms(2,4) by (simp add: Suc_nat_eq_nat_zadd1)
  from failing_chain[OF assms(1) _ _ assms(3) this] assms(2)
  obtain tr where tr: "trace (run_timeouts (snd (executeJob p 1 w))) = trace w @ tr"
    and rest: "map snd (failed tr) = [1..R]" "map snd (started tr) = [1..R]"
      "started tr = (now w, 1) # map (\<lambda>(t, b). (t + 10000, b + 1)) (butlast (failed tr))"
      "timers_set tr = map (\<lambda>(t, b). (t, p, b + 1, 10000)) (butlast (failed tr))"
      "given_up tr = [(fst (last (failed tr)), R)]"
      "succeeded tr = []"
      "snd (last tr) = Skipping (name p) R"
      "timeouts (run_timeouts (snd (executeJob p 1 w))) = []"
    by auto
  have len: "length (failed tr) = nat R" "length (started tr) = nat R"
    using arg_cong[OF rest(1), of length] arg_cong[OF rest(2), of length] assms(2) by simp_all
  show ?thesis
    using rest len by (simp add: events_sinceI[OF tr] Let_def)
qed

theorem always_failing_task_is_attempted_R_times_witness:
  "retries scenario_A = Some 3 \<and> (2::int) \<le> 3 \<and> timeouts (initial_world () :: (unit, string) world) = []
   \<and> fails_first (nat 3) (task scenario_A) (host (initial_world () :: (unit, string) world))
   \<and> (let w' = run_timeouts (snd (executeJob scenario_A 1 (initial_world ())));
           tr = events_since (initial_world ()) w' in
           map snd (started tr) = [1..3]
         \<and> length (started tr) = nat 3
         \<and> length (timers_set tr) = nat 3 - 1
         \<and> timers_set tr = map (\<lambda>(t, a). (t, scenario_A, a + 1, 10000)) (butlast (failed tr))
         \<and> tl (started tr) = map (\<lambda>(t, a). (t + 10000, a + 1)) (butlast (failed tr))
         \<and> map snd (failed tr) = [1..3]
         \<and> given_up tr = [(fst (last (failed tr)), 3)]
         \<and> snd (last tr) = Skipping (name scenario_A) 3
         \<and> succeeded tr = []
         \<and> timeouts w' = [])"
proof -
  have h1: "retries scenario_A = Some 3" by (simp add: scenario_A_def)
  have h3: "timeouts (initial_world () :: (unit, string) world) = []" by (simp add: initial_world_def)
  have h4: "fails_first (nat 3) (task scenario_A) (host (initial_world () :: (unit, string) world))"
    by (simp add: scenario_A_def always_fails_def eval_nat_numeral)
  show ?thesis
    using always_failing_task_is_attempted_R_times[OF h1 _ h3 h4] h1 h3 h4 by simp
qed

text \<open>
  C2. A task that fails on the first attempt, with \<open>retries\<close> unset, 0 or 1, run from attempt 1
  with no other timer pending: one attempt is started, it fails, the give-up line follows,
  \<open>setTimeout\<close> is not called and no timer is pending at the end; the task was called once.
  With \<open>retries = 1\<close> (and with \<open>retries = 0\<close>) the call does exactly what it does with
  \<open>retries\<close> unset.
\<close>

theorem no_retry_when_retries_unset_zero_or_one:
  assumes "retries p = None \<or> retries p = Some 0 \<or> retries p = Some 1"
    and "task p (host w) = (run, h)" and "settlement run = Rejected err"
    and "timeouts w = []"
  shows "let w' = run_timeouts (snd (executeJob p 1 w)); tr = events_since w w' in
           started tr = [(now w, 1)]
         \<and> failed tr = [(now w + elapsed run, 1)]
         \<and> given_up tr = [(now w + elapsed run, 1)]
         \<and> timers_set tr = []
         \<and> timeouts w' = []
         \<and> host w' = h
         \<and> executeJob (p\<lparr>retries := Some 1\<rparr>) 1 w = executeJob (p\<lparr>retries := None\<rparr>) 1 w
         \<and> executeJob (p\<lparr>retries := Some 0\<rparr>) 1 w = executeJob (p\<lparr>retries := None\<rparr>) 1 w"
proof -
  have ng: "\<not> retry_guard (retries p) 1"
    using assms(1) by (auto simp: retry_guard_def)
  have same: "executeJob (p\<lparr>retries := Some 1\<rparr>) 1 w = executeJob (p\<lparr>retries := None\<rparr>) 1 w"
    "executeJob (p\<lparr>retries := Some 0\<rparr>) 1 w = executeJob (p\<lparr>retries := None\<rparr>) 1 w"
    using executeJob_retries_irrelevant[of "p\<lparr>retries := None\<rparr>" 1 "Some 1" w]
      executeJob_retries_irrelevant[of "p\<lparr>retries := None\<rparr>" 1 "Some 0" w]
    by (simp_all add: retry_guard_def)
  show ?thesis
    using ng assms(4) same
    by (simp add: executeJob_rejected[OF assms(2,3)] run_timeouts_none events_since_def
          projection_simps Let_def)
qed

theorem no_retry_when_retries_unset_zero_or_one_witness:
  "(retries \<lparr>name = ''A'', task = fails_once, retries = Some 1\<rparr> = None
      \<or> retries \<lparr>name = ''A'', task = fails_once, retries = Some 1\<rparr> = Some 0
      \<or> retries \<lparr>name = ''A'', task = fails_once, retries = Some 1\<rparr> = Some 1)
   \<and> task \<lparr>name = ''A'', task = fails_once, retries = Some 1\<rparr> (host (initial_world ()))
       = (\<lparr>printed = [''working''], elapsed = 7, settlement = Rejected ''boom''\<rparr>, ())
   \<and> timeouts (initial_world () :: (unit, string) world) = []
   \<and> (let w' = run_timeouts (snd (executeJob \<lparr>name = ''A'', task = fails_once, retries = Some 1\<rparr> 1 (initial_world ())));
          tr = events_since (initial_world ()) w' in
           started tr = [(0, 1)]
         \<and> failed tr = [(7, 1)]
         \<and> given_up tr = [(7, 1)]
         \<and> timers_set tr = []
         \<and> timeouts w' = []
         \<and> executeJob \<lparr>name = ''A'', task = fails_once, retries = Some 1\<rparr> 1 (initial_world ())
             = executeJob \<lparr>name = ''A'', task = fails_once, retries = None\<rparr> 1 (initial_world ()))"
  using no_retry_when_retries_unset_zero_or_one[of "\<lparr>name = ''A'', task = fails_once, retries = Some 1\<rparr>"
      "initial_world ()" "\<lparr>printed = [''working''], elapsed = 7, settlement = Rejected ''boom''\<rparr>" "()" "''boom''"]
  by (simp add: fails_once_def initial_world_def Let_def run_timeouts.simps executeJob_def emit_def
        retry_guard_def events_since_def projection_simps)

text \<open>
  C3. An invocation whose task fails calls \<open>setTimeout\<close> if and only if \<open>retries\<close> is set,
  not 0, and \<open>attempt < retries\<close>. It then calls it once, with a delay of 10000 ms and a
  callback that calls \<open>executeJob\<close> with the same parameters and \<open>attempt + 1\<close>; the timer is
  pending when the invocation returns, the \<open>setTimeout\<close> call is its last event, only the
  one attempt has started, its promise is fulfilled, and the clock stands at the time of
  the failure: the invocation did not wait for the retry.
\<close>

theorem retry_scheduled_iff_retries_set_and_attempts_left:
  assumes "task p (host w) = (run, h)" and "settlement run = Rejected err"
  shows "let (res, w') = executeJob p a w; tr = events_since w w' in
           (timers_set tr \<noteq> [] \<longleftrightarrow> (\<exists>r. retries p = Some r \<and> r \<noteq> 0 \<and> a < r))
         \<and> (if \<exists>r. retries p = Some r \<and> r \<noteq> 0 \<and> a < r
            then timers_set tr = [(now w + elapsed run, p, a + 1, 10000)]
               \<and> timeouts w' = timeouts w @
                    [\<lparr>due = now w + elapsed run + 10000, callback_params = p, callback_attempt = a + 1\<rparr>]
               \<and> snd (last tr) = SetTimeout p (a + 1) 10000
            else timers_set tr = [] \<and> timeouts w' = timeouts w)
         \<and> started tr = [(now w, a)]
         \<and> failed tr = [(now w + elapsed run, a)]
         \<and> res = Fulfilled
         \<and> now w' = now w + elapsed run
         \<and> host w' = h"
proof -
  have g: "retry_guard (retries p) a \<longleftrightarrow> (\<exists>r. retries p = Some r \<and> r \<noteq> 0 \<and> a < r)"
    by (cases "retries p") (simp_all add: retry_guard_def)
  show ?thesis
    unfolding g[symmetric]
    by (simp add: executeJob_rejected[OF assms] events_since_def projection_simps)
qed

theorem retry_scheduled_iff_retries_set_and_attempts_left_witness:
  "task \<lparr>name = ''A'', task = fails_once, retries = Some 3\<rparr> (host (initial_world ()))
     = (\<lparr>printed = [''working''], elapsed = 7, settlement = Rejected ''boom''\<rparr>, ())
   \<and> (let (res, w') = executeJob \<lparr>name = ''A'', task = fails_once, retries = Some 3\<rparr> 2 (initial_world ());
          tr = events_since (initial_world ()) w' in
           timers_set tr = [(7, \<lparr>name = ''A'', task = fails_once, retries = Some 3\<rparr>, 3, 10000)]
         \<and> timeouts w' = [\<lparr>due = 10007, callback_params = \<lparr>name = ''A'', task = fails_once, retries = Some 3\<rparr>,
                              callback_attempt = 3\<rparr>]
         \<and> started tr = [(0, 2)]
         \<and> res = Fulfilled
         \<and> now w' = 7)"
  using retry_scheduled_iff_retries_set_and_attempts_left[of "\<lparr>name = ''A'', task = fails_once, retries = Some 3\<rparr>"
      "initial_world ()" "\<lparr>printed = [''working''], elapsed = 7, settlement = Rejected ''boom''\<rparr>" "()" "''boom''" 2]
  by (simp add: fails_once_def initial_world_def Let_def executeJob_def emit_def setTimeout_def
        retry_guard_def events_since_def projection_simps)

text \<open>
  C4. A task that is fulfilled on the first attempt: the invocation prints the start line,
  whatever the task prints, and the success line, and nothing else; so exactly one start
  line and one success line, no failure, no give-up, no call of \<open>setTimeout\<close>, and the
  pending timers are as before.
\<close>

theorem success_on_first_attempt:
  assumes "task p (host w) = (run, h)" and "settlement run = Fulfilled"
  shows "let (res, w') = executeJob p 1 w; tr = events_since w w' in
           tr = (now w, Executing (name p) 1)
                # map (\<lambda>l. (now w, TaskOutput l)) (printed run)
                @ [(now w + elapsed run, ExecutedSuccessfully (name p))]
         \<and> started tr = [(now w, 1)]
         \<and> succeeded tr = [now w + elapsed run]
         \<and> failed tr = []
         \<and> given_up tr = []
         \<and> timers_set tr = []
         \<and> timeouts w' = timeouts w
         \<and> res = Fulfilled"
  by (simp add: executeJob_fulfilled[OF assms] events_since_def projection_simps)

theorem success_on_first_attempt_witness:
  "task \<lparr>name = ''B'', task = succeeds, retries = None\<rparr> (host (initial_world ()))
     = (\<lparr>printed = [''working''], elapsed = 5, settlement = Fulfilled\<rparr>, ())
   \<and> (let (res, w') = executeJob \<lparr>name = ''B'', task = succeeds, retries = None\<rparr> 1 (initial_world ());
          tr = events_since (initial_world ()) w' in
           tr = [(0, Executing ''B'' 1), (0, TaskOutput ''working''), (5, ExecutedSuccessfully ''B'')]
         \<and> started tr = [(0, 1)]
         \<and> succeeded tr = [5]
         \<and> timers_set tr = []
         \<and> timeouts w' = []
         \<and> res = Fulfilled)"
  using success_on_first_attempt[of "\<lparr>name = ''B'', task = succeeds, retries = None\<rparr>"
      "initial_world ()" "\<lparr>printed = [''working''], elapsed = 5, settlement = Fulfilled\<rparr>" "()"]
  by (simp add: succeeds_def initial_world_def Let_def executeJob_def emit_def setTimeout_def
        retry_guard_def events_since_def projection_simps)

text \<open>
  C5. A task that fails on attempts 1 to \<open>k\<close> and succeeds on attempt \<open>k + 1\<close>, with
  \<open>retries\<close> set and \<open>k + 1 \<le> retries\<close>, run from attempt 1 with no other timer pending:
  the attempts are exactly those numbered 1 to \<open>k + 1\<close>, the first \<open>k\<close> of them fail, there
  is exactly one success line and it is the last event; \<open>setTimeout\<close> was called \<open>k\<close> times,
  once at each failure; nothing was given up and no timer is pending at the end.
\<close>

theorem success_after_k_failures_ends_the_chain:
  assumes "retries p = Some R" and "1 + int k \<le> R" and "timeouts w = []"
    and "succeeds_after k (task p) (host w)"
  shows "let w' = run_timeouts (snd (executeJob p 1 w)); tr = events_since w w' in
           map snd (started tr) = [1..1 + int k]
         \<and> length (started tr) = k + 1
         \<and> map snd (failed tr) = [1..int k]
         \<and> length (succeeded tr) = 1
         \<and> snd (last tr) = ExecutedSuccessfully (name p)
         \<and> length (timers_set tr) = k
         \<and> timers_set tr = map (\<lambda>(t, a). (t, p, a + 1, 10000)) (failed tr)
         \<and> tl (started tr) = map (\<lambda>(t, a). (t + 10000, a + 1)) (failed tr)
         \<and> given_up tr = []
         \<and> timeouts w' = []"
proof -
  have "R \<noteq> 0" using assms(2) by simp
  from succeeding_chain[OF assms(1) this assms(2) assms(3) assms(4)]
  obtain tr where tr: "trace (run_timeouts (snd (executeJob p 1 w))) = trace w @ tr"
    and rest: "map snd (started tr) = [1..1 + int k]"
      "map snd (failed tr) = [1..1 + int k - 1]"
      "started tr = (now w, 1) # map (\<lambda>(t, b). (t + 10000, b + 1)) (failed tr)"
      "timers_set tr = map (\<lambda>(t, b). (t, p, b + 1, 10000)) (failed tr)"
      "length (succeeded tr) = 1"
      "given_up tr = []"
      "snd (last tr) = ExecutedSuccessfully (name p)"
      "timeouts (run_timeouts (snd (executeJob p 1 w))) = []"
    by auto
  have len: "length (started tr) = k + 1" "length (failed tr) = k"
    using arg_cong[OF rest(1), of length] arg_cong[OF rest(2), of length] by simp_all
  show ?thesis
    using rest len by (simp add: events_sinceI[OF tr] Let_def)
qed

theorem success_after_k_failures_ends_the_chain_witness:
  "retries \<lparr>name = ''C'', task = fails_twice, retries = Some 5\<rparr> = Some 5 \<and> 1 + int 2 \<le> 5
   \<and> timeouts (initial_world 0 :: (nat, string) world) = []
   \<and> succeeds_after 2 fails_twice (host (initial_world 0 :: (nat, string) world))
   \<and> events_since (initial_world 0)
        (run_timeouts (snd (executeJob \<lparr>name = ''C'', task = fails_twice, retries = Some 5\<rparr> 1 (initial_world 0))))
      = [(0, Executing ''C'' 1), (7, FailedOnAttempt ''C'' 1 ''not yet''), (7, Retrying ''C''),
         (7, SetTimeout \<lparr>name = ''C'', task = fails_twice, retries = Some 5\<rparr> 2 10000),
         (10007, Executing ''C'' 2), (10014, FailedOnAttempt ''C'' 2 ''not yet''), (10014, Retrying ''C''),
         (10014, SetTimeout \<lparr>name = ''C'', task = fails_twice, retries = Some 5\<rparr> 3 10000),
         (20014, Executing ''C'' 3), (20021, ExecutedSuccessfully ''C'')]
   \<and> (let w' = run_timeouts (snd (executeJob \<lparr>name = ''C'', task = fails_twice, retries = Some 5\<rparr> 1 (initial_world 0)));
          tr = events_since (initial_world 0) w' in
           map snd (started tr) = [1, 2, 3]
         \<and> length (succeeded tr) = 1
         \<and> length (timers_set tr) = 2
         \<and> given_up tr = []
         \<and> timeouts w' = [])"
proof -
  have h: "succeeds_after 2 fails_twice (host (initial_world 0 :: (nat, string) world))"
    by (simp add: numeral_2_eq_2 fails_twice_def initial_world_def)
  show ?thesis
    using success_after_k_failures_ends_the_chain[of "\<lparr>name = ''C'', task = fails_twice, retries = Some 5\<rparr>" 5 2
      "initial_world 0"] h
    by (simp add: fails_twice_def initial_world_def Let_def
        run_timeouts.simps run_next_timeout_def executeJob_def emit_def setTimeout_def
        retry_guard_def events_since_def projection_simps)
qed

text \<open>
  C6. The promise \<open>executeJob\<close> returns is never rejected, whatever the task, \<open>retries\<close> and
  \<open>attempt\<close>. When the task is rejected, the rejection is caught: the promise is fulfilled
  and the failure is printed once, with the attempt number and the error. When moreover
  \<open>retries\<close> is unset or \<open>attempt \<ge> retries\<close>, the give-up line is the last event, no
  timer is set and the pending timers are as before.
\<close>

theorem executeJob_never_rejects:
  "(\<forall>e. fst (executeJob p a w) \<noteq> Rejected e)
   \<and> (task p (host w) = (run, h) \<and> settlement run = Rejected err \<longrightarrow>
        fst (executeJob p a w) = Fulfilled
      \<and> failed (events_since w (snd (executeJob p a w))) = [(now w + elapsed run, a)]
      \<and> (now w + elapsed run, FailedOnAttempt (name p) a err)
           \<in> set (events_since w (snd (executeJob p a w)))
      \<and> (retries p = None \<or> (\<exists>r. retries p = Some r \<and> r \<le> a) \<longrightarrow>
           snd (last (events_since w (snd (executeJob p a w)))) = Skipping (name p) a
         \<and> given_up (events_since w (snd (executeJob p a w))) = [(now w + elapsed run, a)]
         \<and> timers_set (events_since w (snd (executeJob p a w))) = []
         \<and> timeouts (snd (executeJob p a w)) = timeouts w))"
proof -
  have never: "\<forall>e. fst (executeJob p a w) \<noteq> Rejected e"
    by (simp add: executeJob_def Let_def split: prod.splits settlement.splits)
  have caught: "fst (executeJob p a w) = Fulfilled
      \<and> failed (events_since w (snd (executeJob p a w))) = [(now w + elapsed run, a)]
      \<and> (now w + elapsed run, FailedOnAttempt (name p) a err)
           \<in> set (events_since w (snd (executeJob p a w)))"
    if "task p (host w) = (run, h)" "settlement run = Rejected err"
    by (simp add: executeJob_rejected[OF that] events_since_def projection_simps)
  have final: "snd (last (events_since w (snd (executeJob p a w)))) = Skipping (name p) a
         \<and> given_up (events_since w (snd (executeJob p a w))) = [(now w + elapsed run, a)]
         \<and> timers_set (events_since w (snd (executeJob p a w))) = []
         \<and> timeouts (snd (executeJob p a w)) = timeouts w"
    if "task p (host w) = (run, h)" "settlement run = Rejected err"
      and "retries p = None \<or> (\<exists>r. retries p = Some r \<and> r \<le> a)"
  proof -
    have "\<not> retry_guard (retries p) a"
      using that(3) by (auto simp: retry_guard_def)
    then show ?thesis
      by (simp add: executeJob_rejected[OF that(1,2)] events_since_def projection_simps)
  qed
  show ?thesis using never caught final by blast
qed

theorem executeJob_never_rejects_witness:
  "fst (executeJob \<lparr>name = ''A'', task = fails_once, retries = None\<rparr> 1 (initial_world ())) \<noteq> Rejected ''boom''
   \<and> task \<lparr>name = ''A'', task = fails_once, retries = None\<rparr> (host (initial_world ()))
       = (\<lparr>printed = [''working''], elapsed = 7, settlement = Rejected ''boom''\<rparr>, ())
   \<and> fst (executeJob \<lparr>name = ''A'', task = fails_once, retries = None\<rparr> 1 (initial_world ())) = Fulfilled
   \<and> (7, FailedOnAttempt ''A'' 1 ''boom'')
        \<in> set (events_since (initial_world ()) (snd (executeJob \<lparr>name = ''A'', task = fails_once, retries = None\<rparr> 1 (initial_world ()))))
   \<and> snd (last (events_since (initial_world ()) (snd (executeJob \<lparr>name = ''A'', task = fails_once, retries = None\<rparr> 1 (initial_world ())))))
       = Skipping ''A'' 1
   \<and> timeouts (snd (executeJob \<lparr>name = ''A'', task = fails_once, retries = None\<rparr> 1 (initial_world ()))) = []"
  using executeJob_never_rejects[of "\<lparr>name = ''A'', task = fails_once, retries = None\<rparr>" 1
      "initial_world ()" "\<lparr>printed = [''working''], elapsed = 7, settlement = Rejected ''boom''\<rparr>" "()" "''boom''"]
  by (simp add: fails_once_def initial_world_def Let_def executeJob_def emit_def setTimeout_def
        retry_guard_def events_since_def projection_simps)

text \<open>
  C7. One call of \<open>registerAllCronJobs\<close>, in a process where nothing is registered yet: the
  callbacks registered with \<open>cron.schedule\<close> are, in the order of the registry, one per
  descriptor, each under the descriptor's schedule and calling \<open>executeJob\<close> with the
  descriptor's \<open>name\<close>, \<open>task\<close> and \<open>retries\<close>; no name is registered twice. The events of
  the call are, per descriptor in order, the call of \<open>cron.schedule\<close> and the "Scheduled job"
  line: one line per job. The call changes nothing else (it has no result but these
  effects). At a moment \<open>m\<close> of the wall clock, the tick invokes \<open>executeJob\<close> from attempt 1
  for exactly the descriptors whose schedule matches \<open>m\<close>, each with its own \<open>name\<close>,
  \<open>task\<close> and \<open>retries\<close>.
\<close>

theorem registerAllCronJobs_binds_every_job_once_in_order:
  fixes w :: "('s, 'e) world"
  assumes "cron_tasks w = []"
  shows "let w' = registerAllCronJobs w in
           cron_tasks w' =
             map (\<lambda>j. (schedule j, \<lparr>name = name j, task = task j, retries = retries j\<rparr>)) jobs
         \<and> distinct (map (\<lambda>(expr, p). name p) (cron_tasks w'))
         \<and> events_since w w' =
             concat (map (\<lambda>j. [(now w, CronSchedule (schedule j)
                                          \<lparr>name = name j, task = task j, retries = retries j\<rparr>),
                                (now w, ScheduledJob (name j) (schedule j))]) jobs)
         \<and> [(n, s). (t, ScheduledJob n s) \<leftarrow> events_since w w']
             = map (\<lambda>j. (name j, schedule j)) (jobs :: ('s, 'e) job_params list)
         \<and> now w' = now w \<and> host w' = host w \<and> timeouts w' = timeouts w
         \<and> cron_tick matches m w' =
             fold (\<lambda>j v. snd (executeJob \<lparr>name = name j, task = task j, retries = retries j\<rparr> 1 v))
                  (filter (\<lambda>j. matches (schedule j) m) jobs)
                  (w'\<lparr>now := max (now w) m\<rparr>)"
proof -
  let ?f = "\<lambda>j :: ('s, 'e) job_params. \<lparr>name = name j, task = task j, retries = retries j\<rparr>"
  have ct: "cron_tasks (registerAllCronJobs w) = map (\<lambda>j. (schedule j, ?f j)) jobs"
    using assms by (simp add: registerAllCronJobs_def fold_register_job)
  have names: "map (\<lambda>(expr, p). name p) (cron_tasks (registerAllCronJobs w))
               = map name (jobs :: ('s, 'e) job_params list)"
    by (simp add: ct comp_def)
  have ev: "events_since w (registerAllCronJobs w) =
             concat (map (\<lambda>j. [(now w, CronSchedule (schedule j) (?f j)),
                                (now w, ScheduledJob (name j) (schedule j))]) jobs)"
    by (simp add: registerAllCronJobs_def fold_register_job events_since_def)
  have frame: "now (registerAllCronJobs w) = now w" "host (registerAllCronJobs w) = host w"
    "timeouts (registerAllCronJobs w) = timeouts w"
    by (simp_all add: registerAllCronJobs_def fold_register_job)
  show ?thesis
    unfolding Let_def names ev scheduled_lines
    using ct frame distinct_job_names cron_tick_of_registered[OF ct, of matches m]
    by simp
qed

theorem registerAllCronJobs_binds_every_job_once_in_order_witness:
  "cron_tasks (initial_world () :: (unit, string) world) = []
   \<and> map (\<lambda>(expr, p). (expr, name p, retries p))
        (cron_tasks (registerAllCronJobs (initial_world () :: (unit, string) world)))
      = [(''0 1 * * *'', ''Process Pending Payments'', Some 3),
         (''0 2 * * *'', ''Expire Inactive Subscriptions'', None),
         (''0 0,6,12,18 * * *'', ''Assign Support Agents to New Cases'', Some 2),
         (''30 3 * * *'', ''Generate Daily Reports'', None),
         (''30 0,12 * * *'', ''Update User Status'', Some 3),
         (''0 4 * * *'', ''Sync External Data Sources'', None),
         (''0 5 * * *'', ''Clear Old Logs and Cache'', None)]
   \<and> [(n, s). (t, ScheduledJob n s) \<leftarrow>
         events_since (initial_world ()) (registerAllCronJobs (initial_world () :: (unit, string) world))]
      = [(''Process Pending Payments'', ''0 1 * * *''),
         (''Expire Inactive Subscriptions'', ''0 2 * * *''),
         (''Assign Support Agents to New Cases'', ''0 0,6,12,18 * * *''),
         (''Generate Daily Reports'', ''30 3 * * *''),
         (''Update User Status'', ''30 0,12 * * *''),
         (''Sync External Data Sources'', ''0 4 * * *''),
         (''Clear Old Logs and Cache'', ''0 5 * * *'')]
   \<and> events_since (registerAllCronJobs (initial_world ()))
        (cron_tick one_am_only 60 (registerAllCronJobs (initial_world () :: (unit, string) world)))
      = [(60, Executing ''Process Pending Payments'' 1),
         (60, TaskOutput ''[Job] Processing pending payments...''),
         (60, TaskOutput ''[Job] Payments processed successfully.''),
         (60, ExecutedSuccessfully ''Process Pending Payments'')]"
  using registerAllCronJobs_binds_every_job_once_in_order[of "initial_world () :: (unit, string) world" one_am_only 60]
  by (simp add: initial_world_def registerAllCronJobs_def register_job_eq jobs_def job_body_def
        one_am_only_def cron_tick_def cron_callback_def executeJob_def emit_def events_since_def Let_def)

text \<open>
  C8. Calling \<open>registerAllCronJobs\<close> twice in a process where nothing was registered:
  every callback is registered twice (14 registrations for the 7 jobs), so the second call
  does not leave the world as the first left it; at every tick the start line of every job
  is printed twice as often as after one call, and a job of the registry whose schedule
  matches the moment is started once after one call and twice after two.
\<close>

theorem registering_twice_fires_every_job_twice:
  fixes w :: "('s, 'e) world" and j :: "('s, 'e) job_params"
  assumes "cron_tasks w = []" and "j \<in> set jobs" and "matches (schedule j) m"
  shows "let once = registerAllCronJobs w; twice = registerAllCronJobs once in
           cron_tasks twice = cron_tasks once @ cron_tasks once
         \<and> length (cron_tasks once) = 7
         \<and> length (cron_tasks twice) = 14
         \<and> twice \<noteq> once
         \<and> count_list (map snd (events_since twice (cron_tick matches m twice))) (Executing n 1)
             = 2 * count_list (map snd (events_since once (cron_tick matches m once))) (Executing n 1)
         \<and> count_list (map snd (events_since once (cron_tick matches m once))) (Executing (name j) 1) = 1
         \<and> count_list (map snd (events_since twice (cron_tick matches m twice))) (Executing (name j) 1) = 2"
proof -
  let ?f = "\<lambda>j :: ('s, 'e) job_params. \<lparr>name = name j, task = task j, retries = retries j\<rparr>"
  let ?once = "registerAllCronJobs w"
  let ?twice = "registerAllCronJobs ?once"
  have c1: "cron_tasks ?once = map (\<lambda>j. (schedule j, ?f j)) jobs"
    using assms(1) by (simp add: registerAllCronJobs_def fold_register_job)
  have c2: "cron_tasks ?twice = cron_tasks ?once @ cron_tasks ?once"
    using c1 by (simp add: registerAllCronJobs_def fold_register_job)
  have len: "length (cron_tasks ?once) = 7" "length (cron_tasks ?twice) = 14"
    unfolding c2 by (simp_all add: c1) (simp_all add: jobs_def)
  have ne: "?twice \<noteq> ?once"
  proof
    assume "?twice = ?once"
    then have "length (cron_tasks ?twice) = length (cron_tasks ?once)" by simp
    with len show False by simp
  qed
  have dbl: "count_list (map snd (events_since ?twice (cron_tick matches m ?twice))) (Executing n' 1)
             = 2 * count_list (map snd (events_since ?once (cron_tick matches m ?once))) (Executing n' 1)"
    for n'
    by (simp add: cron_tick_invocations c2)
  have "count_list (map snd (events_since ?once (cron_tick matches m ?once))) (Executing (name j) 1)
        = length (filter (\<lambda>j'. matches (schedule j') m \<and> name j' = name j)
                    (jobs :: ('s, 'e) job_params list))"
    by (simp add: cron_tick_invocations c1 filter_map comp_def)
  then have one: "count_list (map snd (events_since ?once (cron_tick matches m ?once))) (Executing (name j) 1) = 1"
    using one_job_of_that_name[OF distinct_job_names assms(2), of "\<lambda>j'. matches (schedule j') m"] assms(3)
    by simp
  show ?thesis
    unfolding Let_def using c2 len ne dbl[of n] dbl[of "name j"] one by simp
qed

theorem registering_twice_fires_every_job_twice_witness:
  "cron_tasks (initial_world () :: (unit, string) world) = []
   \<and> hd jobs \<in> set (jobs :: (unit, string) job_params list)
   \<and> one_am_only (schedule (hd jobs :: (unit, string) job_params)) 60
   \<and> (let once = registerAllCronJobs (initial_world () :: (unit, string) world);
          twice = registerAllCronJobs once in
           length (cron_tasks once) = 7
         \<and> length (cron_tasks twice) = 14
         \<and> twice \<noteq> once
         \<and> count_list (map snd (events_since once (cron_tick one_am_only 60 once)))
              (Executing ''Process Pending Payments'' 1) = 1
         \<and> count_list (map snd (events_since twice (cron_tick one_am_only 60 twice)))
              (Executing ''Process Pending Payments'' 1) = 2)"
proof -
  have h1: "cron_tasks (initial_world () :: (unit, string) world) = []"
    by (simp add: initial_world_def)
  have h2: "hd jobs \<in> set (jobs :: (unit, string) job_params list)"
    by (simp add: jobs_def)
  have h3: "one_am_only (schedule (hd jobs :: (unit, string) job_params)) 60"
    by (simp add: jobs_def one_am_only_def)
  have nm: "name (hd jobs :: (unit, string) job_params) = ''Process Pending Payments''"
    by (simp add: jobs_def)
  show ?thesis
    using registering_twice_fires_every_job_twice[where w = "initial_world () :: (unit, string) world"
        and j = "hd jobs" and matches = one_am_only and m = 60 and n = "''Process Pending Payments''"]
      h1 h2 h3
    by (simp add: Let_def nm)
qed

text \<open>
  C9. In the run of a chain started by \<open>executeJob p a\<close> with no other timer pending, whatever
  the task does: every callback handed to \<open>setTimeout\<close> passes on the \<open>name\<close>, \<open>task\<close> and
  \<open>retries\<close> of \<open>p\<close>, and the attempts they pass on are \<open>a + 1\<close>, \<open>a + 2\<close>, ... in this
  order, one per re-invocation; the attempts started are \<open>a\<close>, \<open>a + 1\<close>, ..., one more than
  the timers set. The invocation itself leaves at most one timer pending, for \<open>p\<close> and
  \<open>a + 1\<close>.
\<close>

theorem retries_pass_on_the_same_parameters:
  assumes "timeouts w = []"
  shows "let w' = run_timeouts (snd (executeJob p a w)); tr = events_since w w';
             n = length (timers_set tr) in
           map (\<lambda>(t, q, b, ms). (name q, task q, retries q, b)) (timers_set tr)
             = map (\<lambda>b. (name p, task p, retries p, b)) [a + 1..a + int n]
         \<and> map snd (started tr) = [a..a + int n]
         \<and> (map (\<lambda>t. (callback_params t, callback_attempt t)) (timeouts (snd (executeJob p a w))) = []
            \<or> map (\<lambda>t. (callback_params t, callback_attempt t)) (timeouts (snd (executeJob p a w)))
                = [(p, a + 1)])"
proof -
  from chain_calls[OF assms, of p a]
  obtain tr where tr: "trace (run_timeouts (snd (executeJob p a w))) = trace w @ tr"
    and ts: "map (\<lambda>(t, q, b, ms). (q, b, ms)) (timers_set tr)
              = map (\<lambda>b. (p, b, 10000)) [a + 1..a + int (length (timers_set tr))]"
    and st: "map snd (started tr) = [a..a + int (length (timers_set tr))]"
    by auto
  have "map ((\<lambda>(q, b, ms). (name q, task q, retries q, b)) \<circ> (\<lambda>(t, q, b, ms). (q, b, ms))) (timers_set tr)
        = map ((\<lambda>(q, b, ms). (name q, task q, retries q, b)) \<circ> (\<lambda>b. (p, b, 10000::nat)))
            [a + 1..a + int (length (timers_set tr))]"
    using arg_cong[OF ts, of "map (\<lambda>(q, b, ms). (name q, task q, retries q, b))"]
    by (simp only: map_map)
  then have ts': "map (\<lambda>(t, q, b, ms). (name q, task q, retries q, b)) (timers_set tr)
             = map (\<lambda>b. (name p, task p, retries p, b)) [a + 1..a + int (length (timers_set tr))]"
    by (simp add: comp_def case_prod_unfold)
  obtain run h where th: "task p (host w) = (run, h)" by (cases "task p (host w)")
  have one: "map (\<lambda>t. (callback_params t, callback_attempt t)) (timeouts (snd (executeJob p a w))) = []
            \<or> map (\<lambda>t. (callback_params t, callback_attempt t)) (timeouts (snd (executeJob p a w)))
                = [(p, a + 1)]"
    using assms th
    by (cases "settlement run")
       (simp_all add: executeJob_fulfilled executeJob_pending executeJob_rejected)
  show ?thesis
    using ts' st one by (simp add: events_sinceI[OF tr] Let_def)
qed

theorem retries_pass_on_the_same_parameters_witness:
  "timeouts (initial_world () :: (unit, string) world) = []
   \<and> (let w' = run_timeouts (snd (executeJob scenario_A 1 (initial_world ())));
          tr = events_since (initial_world ()) w' in
           map (\<lambda>(t, q, b, ms). (name q, task q, retries q, b)) (timers_set tr)
             = [(''A'', always_fails, Some 3, 2), (''A'', always_fails, Some 3, 3)]
         \<and> map snd (started tr) = [1, 2, 3])"
  using retries_pass_on_the_same_parameters[of "initial_world () :: (unit, string) world" scenario_A 1]
  by (simp add: scenario_A_def always_fails_def initial_world_def Let_def
        run_timeouts.simps run_next_timeout_def executeJob_def emit_def setTimeout_def
        retry_guard_def events_since_def projection_simps)

text \<open>
  C10. A task that fails on the first attempt, with a negative \<open>retries\<close>, run from attempt 1
  with no other timer pending: \<open>retries\<close> is truthy but \<open>1 < retries\<close> is false, so the
  guard fails; one attempt is started, the give-up line is the last event, \<open>setTimeout\<close> is
  not called, no timer is pending, and the call does exactly what it does with \<open>retries = 0\<close>.
\<close>

theorem negative_retries_behave_like_zero:
  assumes "retries p = Some r" and "r < 0"
    and "task p (host w) = (run, h)" and "settlement run = Rejected err"
    and "timeouts w = []"
  shows "let w' = run_timeouts (snd (executeJob p 1 w)); tr = events_since w w' in
           r \<noteq> 0 \<and> \<not> 1 < r \<and> \<not> retry_guard (retries p) 1
         \<and> started tr = [(now w, 1)]
         \<and> failed tr = [(now w + elapsed run, 1)]
         \<and> given_up tr = [(now w + elapsed run, 1)]
         \<and> snd (last tr) = Skipping (name p) 1
         \<and> timers_set tr = []
         \<and> timeouts w' = []
         \<and> host w' = h
         \<and> executeJob p 1 w = executeJob (p\<lparr>retries := Some 0\<rparr>) 1 w"
proof -
  have ng: "\<not> retry_guard (retries p) 1"
    using assms(1,2) by (simp add: retry_guard_def)
  have same: "executeJob (p\<lparr>retries := Some 0\<rparr>) 1 w = executeJob p 1 w"
    by (rule executeJob_retries_irrelevant[OF ng]) (simp add: retry_guard_def)
  show ?thesis
    using ng assms(2,5) same
    by (simp add: executeJob_rejected[OF assms(3,4)] run_timeouts_none events_since_def
          projection_simps Let_def)
qed

theorem negative_retries_behave_like_zero_witness:
  "retries \<lparr>name = ''A'', task = fails_once, retries = Some (- 1)\<rparr> = Some (- 1) \<and> (- 1 :: int) < 0
   \<and> task \<lparr>name = ''A'', task = fails_once, retries = Some (- 1)\<rparr> (host (initial_world ()))
       = (\<lparr>printed = [''working''], elapsed = 7, settlement = Rejected ''boom''\<rparr>, ())
   \<and> timeouts (initial_world () :: (unit, string) world) = []
   \<and> (let w' = run_timeouts (snd (executeJob \<lparr>name = ''A'', task = fails_once, retries = Some (- 1)\<rparr> 1 (initial_world ())));
          tr = events_since (initial_world ()) w' in
           started tr = [(0, 1)]
         \<and> given_up tr = [(7, 1)]
         \<and> snd (last tr) = Skipping ''A'' 1
         \<and> timers_set tr = []
         \<and> timeouts w' = []
         \<and> executeJob \<lparr>name = ''A'', task = fails_once, retries = Some (- 1)\<rparr> 1 (initial_world ())
             = executeJob \<lparr>name = ''A'', task = fails_once, retries = Some 0\<rparr> 1 (initial_world ()))"
  using negative_retries_behave_like_zero[of "\<lparr>name = ''A'', task = fails_once, retries = Some (- 1)\<rparr>" "- 1"
      "initial_world ()" "\<lparr>printed = [''working''], elapsed = 7, settlement = Rejected ''boom''\<rparr>" "()" "''boom''"]
  by (simp add: fails_once_def initial_world_def Let_def run_timeouts.simps executeJob_def emit_def
        retry_guard_def events_since_def projection_simps)

end
